theory Spec2Isabelle
  imports Complex_Main "HOL-Library.Word" "HOL-Library.Log_Nat"
begin

unbundle bit_operations_syntax

section \<open>Image buffers\<close>

text \<open>
  The application (\<^verbatim>\<open>Pencit.py\<close>, class \<^verbatim>\<open>ImageProcessingApp\<close>) keeps its images as
  numpy arrays of \<^verbatim>\<open>uint8\<close>: shape \<^verbatim>\<open>(h, w)\<close> for one channel and \<^verbatim>\<open>(h, w, 3)\<close> for three.
  An array is modelled as its rows; a sample is an 8-bit word.
\<close>

type_synonym sample = "8 word"
type_synonym pixel = "sample \<times> sample \<times> sample"

datatype image = Gray "sample list list" | Color "pixel list list"

text \<open>\<^verbatim>\<open>len(image.shape)\<close> and \<^verbatim>\<open>h, w = image.shape[:2]\<close>.\<close>

fun len_shape :: "image \<Rightarrow> nat" where
  "len_shape (Gray rows) = 2"
| "len_shape (Color rows) = 3"

definition row_width :: "'a list list \<Rightarrow> nat" where
  "row_width rows = (case rows of [] \<Rightarrow> 0 | r # _ \<Rightarrow> length r)"

fun height :: "image \<Rightarrow> nat" where
  "height (Gray rows) = length rows"
| "height (Color rows) = length rows"

fun width :: "image \<Rightarrow> nat" where
  "width (Gray rows) = row_width rows"
| "width (Color rows) = row_width rows"

text \<open>All samples of an image, channel by channel inside a pixel.\<close>

fun samples :: "image \<Rightarrow> sample list" where
  "samples (Gray rows) = concat rows"
| "samples (Color rows) = concat (map (\<lambda>(r, g, b). [r, g, b]) (concat rows))"

text \<open>An elementwise numpy or OpenCV operation on the samples of an array.\<close>

fun map_image :: "(sample \<Rightarrow> sample) \<Rightarrow> image \<Rightarrow> image" where
  "map_image f (Gray rows) = Gray (map (map f) rows)"
| "map_image f (Color rows) = Color (map (map (\<lambda>(r, g, b). (f r, f g, f b))) rows)"

section \<open>Python floats\<close>

text \<open>
  A Python \<^verbatim>\<open>float\<close> is an IEEE 754 binary64 value: a rational, an infinity or NaN.
  An arithmetic operation returns the exact result rounded to the nearest value with a
  53-bit significand, ties to even. The exponent range is not modelled: every quotient
  and product below lies between \<open>2\<^sup>-\<^sup>6\<^sup>4\<close> and \<open>2\<^sup>6\<^sup>4\<close> for array sizes a machine can hold.
\<close>

datatype pyfloat = Finite rat | PosInf | NegInf | NaN

datatype exn = cv2_error | ZeroDivisionError | ValueError

definition pow2 :: "int \<Rightarrow> rat" where
  "pow2 e = (if 0 \<le> e then 2 ^ nat e else 1 / 2 ^ nat (- e))"

text \<open>The exponent \<open>e\<close> with \<open>2\<^sup>e \<le> q < 2\<^sup>e\<^sup>+\<^sup>1\<close>, for \<open>q > 0\<close>.\<close>

definition binade :: "rat \<Rightarrow> int" where
  "binade q =
     (let (a, b) = quotient_of q;
          d = bitlen a - bitlen b
      in if pow2 d \<le> q then d else d - 1)"

definition round_half_even :: "rat \<Rightarrow> int" where
  "round_half_even q =
     (let f = \<lfloor>q\<rfloor>; d = q - of_int f
      in if d < 1 / 2 then f
         else if 1 / 2 < d then f + 1
         else if even f then f else f + 1)"

definition round_binary64 :: "rat \<Rightarrow> rat" where
  "round_binary64 q =
     (if q = 0 then 0
      else let u = pow2 (binade \<bar>q\<bar> - 52)
           in sgn q * of_int (round_half_even (\<bar>q\<bar> / u)) * u)"

text \<open>\<^verbatim>\<open>int(x)\<close> and numpy's \<^verbatim>\<open>astype\<close> to an integer type truncate towards zero.\<close>

definition trunc :: "rat \<Rightarrow> int" where
  "trunc q = (if 0 \<le> q then \<lfloor>q\<rfloor> else \<lceil>q\<rceil>)"

text \<open>Python's \<^verbatim>\<open>a / b\<close> on two integers: the correctly rounded quotient.\<close>

definition int_truediv :: "int \<Rightarrow> int \<Rightarrow> exn + rat" where
  "int_truediv a b =
     (if b = 0 then Inl ZeroDivisionError else Inr (round_binary64 (of_int a / of_int b)))"

text \<open>Python's \<^verbatim>\<open>n * x\<close> on an integer and a float: the integer is converted first.\<close>

definition int_float_mul :: "int \<Rightarrow> rat \<Rightarrow> rat" where
  "int_float_mul n x = round_binary64 (round_binary64 (of_int n) * x)"

text \<open>The chained comparison \<^verbatim>\<open>lo <= value <= hi\<close> on floats; it is false on NaN.\<close>

fun float_between :: "rat \<Rightarrow> pyfloat \<Rightarrow> rat \<Rightarrow> bool" where
  "float_between lo (Finite v) hi = (lo \<le> v \<and> v \<le> hi)"
| "float_between lo PosInf hi = False"
| "float_between lo NegInf hi = False"
| "float_between lo NaN hi = False"

section \<open>The library calls\<close>

text \<open>
  Every transform is one call into OpenCV or numpy. The calls whose results the
  properties below depend on are written out from the library's documented behaviour;
  the decoder, the encoder, the luminance weights, the two convolutions and the sizes
  of the Tk canvases are parameters of the model, collected in \<open>env\<close>.
\<close>

datatype canvas = original_canvas | processed_canvas

record env =
  imread :: "string \<Rightarrow> pixel list list option"
  imwrite :: "string \<Rightarrow> image \<Rightarrow> exn + bool"
  rgb2gray :: "pixel \<Rightarrow> sample"
  GaussianBlur :: "image \<Rightarrow> nat \<times> nat \<Rightarrow> rat \<Rightarrow> image"
  filter2D :: "image \<Rightarrow> int \<Rightarrow> int list list \<Rightarrow> image"
  winfo_width :: "canvas \<Rightarrow> int"
  winfo_height :: "canvas \<Rightarrow> int"

text \<open>
  \<^verbatim>\<open>cv2.imread(path)\<close> with its default flag decodes to a 3-channel BGR array and
  returns \<^verbatim>\<open>None\<close>, without raising, when the file cannot be read.

  \<^verbatim>\<open>cv2.cvtColor\<close> raises \<^verbatim>\<open>cv2.error\<close> on \<^verbatim>\<open>None\<close> and, for the three codes used
  here, on an array that has no third axis.
\<close>

datatype ColorConversionCode = COLOR_BGR2RGB | COLOR_RGB2BGR | COLOR_RGB2GRAY

fun cvtColor :: "env \<Rightarrow> image option \<Rightarrow> ColorConversionCode \<Rightarrow> exn + image" where
  "cvtColor e None code = Inl cv2_error"
| "cvtColor e (Some (Gray rows)) code = Inl cv2_error"
| "cvtColor e (Some (Color rows)) COLOR_BGR2RGB =
     Inr (Color (map (map (\<lambda>(b, g, r). (r, g, b))) rows))"
| "cvtColor e (Some (Color rows)) COLOR_RGB2BGR =
     Inr (Color (map (map (\<lambda>(r, g, b). (b, g, r))) rows))"
| "cvtColor e (Some (Color rows)) COLOR_RGB2GRAY =
     Inr (Gray (map (map (rgb2gray e)) rows))"

text \<open>
  \<^verbatim>\<open>cv2.threshold(src, thresh, maxval, cv2.THRESH_BINARY)\<close>: a sample becomes \<^verbatim>\<open>maxval\<close>
  when it is greater than \<^verbatim>\<open>thresh\<close> and 0 otherwise. The code drops the first component
  of the returned pair.
\<close>

definition threshold :: "image \<Rightarrow> int \<Rightarrow> sample \<Rightarrow> image" where
  "threshold src thresh maxval = map_image (\<lambda>x. if thresh < uint x then maxval else 0) src"

text \<open>\<^verbatim>\<open>cv2.bitwise_not\<close> complements every bit of every sample.\<close>

definition bitwise_not :: "image \<Rightarrow> image" where
  "bitwise_not src = map_image (\<lambda>x. NOT x) src"

text \<open>
  \<^verbatim>\<open>np.clip(original / value, 0, 255).astype(np.uint8)\<close>, sample by sample: the quotient
  is a float, \<^verbatim>\<open>clip\<close> is \<^verbatim>\<open>minimum(maximum(a, lo), hi)\<close>, the cast truncates.
\<close>

definition true_divide :: "sample \<Rightarrow> rat \<Rightarrow> rat" where
  "true_divide x v = round_binary64 (of_nat (unat x) / v)"

definition clip :: "rat \<Rightarrow> rat \<Rightarrow> rat \<Rightarrow> rat" where
  "clip a lo hi = min (max a lo) hi"

definition astype_uint8 :: "rat \<Rightarrow> sample" where
  "astype_uint8 a = word_of_int (trunc a)"

text \<open>
  \<^verbatim>\<open>cv2.getStructuringElement(shape, (5, 5))\<close>: all ones for \<^verbatim>\<open>MORPH_RECT\<close>, the middle
  row and the middle column for \<^verbatim>\<open>MORPH_CROSS\<close>.
\<close>

datatype MorphShapes = MORPH_RECT | MORPH_CROSS

fun getStructuringElement :: "MorphShapes \<Rightarrow> nat \<times> nat \<Rightarrow> sample list list" where
  "getStructuringElement MORPH_RECT (cols, rows) = replicate rows (replicate cols 1)"
| "getStructuringElement MORPH_CROSS (cols, rows) =
     map (\<lambda>i. map (\<lambda>j. if i = rows div 2 \<or> j = cols div 2 then 1 else 0) [0..<cols])
       [0..<rows]"

text \<open>
  \<^verbatim>\<open>cv2.erode(src, kernel, iterations=1)\<close>: the anchor is the centre of the structuring
  element, and with the default border a position outside the image does not take part
  in the minimum. Each channel is eroded on its own.
\<close>

definition neighbourhood :: "'a list list \<Rightarrow> sample list list \<Rightarrow> nat \<Rightarrow> nat \<Rightarrow> 'a list" where
  "neighbourhood src kern y x =
     (let ay = length kern div 2; ax = row_width kern div 2
      in concat (map (\<lambda>i. concat (map (\<lambda>j.
           if kern ! i ! j \<noteq> 0 \<and> ay \<le> y + i \<and> y + i - ay < length src
              \<and> ax \<le> x + j \<and> x + j - ax < length (src ! (y + i - ay))
           then [src ! (y + i - ay) ! (x + j - ax)] else [])
         [0..<length (kern ! i)])) [0..<length kern]))"

definition erode_rows ::
  "('a \<Rightarrow> 'a \<Rightarrow> 'a) \<Rightarrow> 'a \<Rightarrow> 'a list list \<Rightarrow> sample list list \<Rightarrow> 'a list list" where
  "erode_rows least border src kern =
     map (\<lambda>y. map (\<lambda>x. fold least (neighbourhood src kern y x) border)
                [0..<length (src ! y)]) [0..<length src]"

definition pixel_min :: "pixel \<Rightarrow> pixel \<Rightarrow> pixel" where
  "pixel_min p q = (case p of (r, g, b) \<Rightarrow> case q of (r', g', b') \<Rightarrow>
     (min r r', min g g', min b b'))"

fun erode :: "image \<Rightarrow> sample list list \<Rightarrow> image" where
  "erode (Gray rows) kern = Gray (erode_rows min 255 rows kern)"
| "erode (Color rows) kern = Color (erode_rows pixel_min (255, 255, 255) rows kern)"

text \<open>
  \<^verbatim>\<open>cv2.calcHist([img], [i], None, [256], [0, 256])\<close>: how often each of the 256 levels
  occurs in channel \<open>i\<close>.
\<close>

fun channel :: "image \<Rightarrow> nat \<Rightarrow> sample list" where
  "channel (Gray rows) i = concat rows"
| "channel (Color rows) i =
     map (\<lambda>(r, g, b). if i = 0 then r else if i = 1 then g else b) (concat rows)"

definition calcHist :: "image \<Rightarrow> nat \<Rightarrow> nat list" where
  "calcHist img i = map (\<lambda>v. count_list (channel img i) (of_nat v)) [0..<256]"

section \<open>The application state and its operations\<close>

text \<open>
  \<^verbatim>\<open>setup_variables\<close> creates the five variables. The entry field of the division section
  is bound to \<^verbatim>\<open>division_var\<close> (\<^verbatim>\<open>textvariable=self.division_var\<close>), so the two hold one
  text; the model keeps what \<^verbatim>\<open>float(self.division_entry.get())\<close> makes of that text,
  \<open>None\<close> when it raises \<^verbatim>\<open>ValueError\<close>.
\<close>

record app =
  original_image :: "image option"
  processed_image :: "image option"
  image_path :: "string option"
  threshold_var :: int
  division_var :: "pyfloat option"

definition setup_variables :: app where
  "setup_variables =
     \<lparr>original_image = None, processed_image = None, image_path = None,
      threshold_var = 128, division_var = Some (Finite 2)\<rparr>"

text \<open>
  What an operation tells the user: a status line (\<open>Done\<close>), a closed file dialog, a
  warning box, an error box, an exception that no handler of the method catches, or the
  plotted histogram.
\<close>

datatype report = Done | Cancelled | Warning | Error | Uncaught exn | Plotted "nat list list"

text \<open>
  \<^verbatim>\<open>display_image\<close> draws on a canvas and leaves the variables alone; the model returns
  the scale and the size of the drawn picture.
\<close>

definition display_image :: "env \<Rightarrow> image option \<Rightarrow> canvas \<Rightarrow> exn + (rat \<times> int \<times> int) option" where
  "display_image e img cv =
     (case img of
        None \<Rightarrow> Inr None
      | Some arr \<Rightarrow>
          let canvas_width = max (winfo_width e cv) 300;
              canvas_height = max (winfo_height e cv) 200;
              h = int (height arr);
              w = int (width arr)
          in case int_truediv (canvas_width - 20) w of
               Inl x \<Rightarrow> Inl x
             | Inr sw \<Rightarrow>
                 (case int_truediv (canvas_height - 20) h of
                    Inl x \<Rightarrow> Inl x
                  | Inr sh \<Rightarrow>
                      let scale = min sw (min sh 1);
                          new_w = max (trunc (int_float_mul w scale)) 1;
                          new_h = max (trunc (int_float_mul h scale)) 1
                      in Inr (Some (scale, new_w, new_h))))"

definition check_image :: "app \<Rightarrow> bool" where
  "check_image s = (original_image s \<noteq> None)"

text \<open>The two lines that end every transform: draw the result, set the status.\<close>

definition show_processed :: "env \<Rightarrow> app \<Rightarrow> app \<times> report" where
  "show_processed e s =
     (case display_image e (processed_image s) processed_canvas of
        Inl x \<Rightarrow> (s, Uncaught x)
      | Inr d \<Rightarrow> (s, Done))"

text \<open>
  \<^verbatim>\<open>load_image\<close>; \<open>file_path\<close> is what the file dialog returned, empty when closed.
  Everything from \<^verbatim>\<open>cv2.imread\<close> to the end of the method runs under
  \<^verbatim>\<open>except Exception\<close>, so an exception of either \<^verbatim>\<open>display_image\<close> call ends in the
  error box as well. The info label, the status line and the selected tab are widgets
  and are left out.
\<close>

definition load_image :: "env \<Rightarrow> string \<Rightarrow> app \<Rightarrow> app \<times> report" where
  "load_image e file_path s =
     (if file_path = [] then (s, Cancelled)
      else
        let s1 = s\<lparr>original_image := map_option Color (imread e file_path)\<rparr>
        in case cvtColor e (original_image s1) COLOR_BGR2RGB of
             Inl x \<Rightarrow> (s1, Error)
           | Inr rgb \<Rightarrow>
               let s2 = s1\<lparr>original_image := Some rgb\<rparr>;
                   s3 = s2\<lparr>processed_image := original_image s2\<rparr>;
                   s4 = s3\<lparr>image_path := Some file_path\<rparr>
               in case display_image e (original_image s4) original_canvas of
                    Inl x \<Rightarrow> (s4, Error)
                  | Inr d \<Rightarrow>
                      (case display_image e (processed_image s4) processed_canvas of
                         Inl x \<Rightarrow> (s4, Error)
                       | Inr d' \<Rightarrow> (s4, Done)))"

definition convert_grayscale :: "env \<Rightarrow> app \<Rightarrow> app \<times> report" where
  "convert_grayscale e s =
     (if \<not> check_image s then (s, Warning)
      else case cvtColor e (original_image s) COLOR_RGB2GRAY of
             Inl x \<Rightarrow> (s, Uncaught x)
           | Inr gray \<Rightarrow> show_processed e (s\<lparr>processed_image := Some gray\<rparr>))"

definition convert_binary :: "env \<Rightarrow> app \<Rightarrow> app \<times> report" where
  "convert_binary e s =
     (if \<not> check_image s then (s, Warning)
      else case (if len_shape (the (original_image s)) = 3
                 then cvtColor e (original_image s) COLOR_RGB2GRAY
                 else Inr (the (original_image s))) of
             Inl x \<Rightarrow> (s, Uncaught x)
           | Inr gray \<Rightarrow>
               show_processed e
                 (s\<lparr>processed_image := Some (threshold gray (threshold_var s) 255)\<rparr>))"

definition logical_not :: "env \<Rightarrow> app \<Rightarrow> app \<times> report" where
  "logical_not e s =
     (if \<not> check_image s then (s, Warning)
      else show_processed e
             (s\<lparr>processed_image := Some (bitwise_not (the (original_image s)))\<rparr>))"

text \<open>
  \<^verbatim>\<open>apply_division\<close>: only \<^verbatim>\<open>ValueError\<close> is caught. A float that passes the range check
  is finite.
\<close>

definition apply_division :: "env \<Rightarrow> app \<Rightarrow> app \<times> report" where
  "apply_division e s =
     (if \<not> check_image s then (s, Warning)
      else case division_var s of
             None \<Rightarrow> (s, Error)
           | Some val \<Rightarrow>
               if \<not> float_between 1 val 10 then (s, Error)
               else (case val of
                       Finite v \<Rightarrow>
                         let s1 = s\<lparr>division_var := Some val\<rparr>;
                             s2 = s1\<lparr>processed_image :=
                                    Some (map_image (\<lambda>x. astype_uint8 (clip (true_divide x v) 0 255))
                                           (the (original_image s1)))\<rparr>
                         in show_processed e s2
                     | _ \<Rightarrow> (s, Error)))"

text \<open>\<^verbatim>\<open>show_histogram\<close>: \<^verbatim>\<open># Use processed image for histogram if available\<close>.\<close>

definition show_histogram :: "env \<Rightarrow> app \<Rightarrow> app \<times> report" where
  "show_histogram e s =
     (if \<not> check_image s then (s, Warning)
      else
        let img_for_hist = (if processed_image s \<noteq> None then the (processed_image s)
                            else the (original_image s))
        in if len_shape img_for_hist = 3
           then (s, Plotted (map (\<lambda>i. calcHist img_for_hist i) [0, 1, 2]))
           else (s, Plotted [calcHist img_for_hist 0]))"

definition gaussian_blur :: "env \<Rightarrow> app \<Rightarrow> app \<times> report" where
  "gaussian_blur e s =
     (if \<not> check_image s then (s, Warning)
      else show_processed e
             (s\<lparr>processed_image := Some (GaussianBlur e (the (original_image s)) (15, 15) 0)\<rparr>))"

definition sharpen_image :: "env \<Rightarrow> app \<Rightarrow> app \<times> report" where
  "sharpen_image e s =
     (if \<not> check_image s then (s, Warning)
      else
        let kern = [[-1, -1, -1], [-1, 9, -1], [-1, -1, -1]]
        in show_processed e
             (s\<lparr>processed_image := Some (filter2D e (the (original_image s)) (-1) kern)\<rparr>))"

text \<open>The first five lines shared by \<^verbatim>\<open>erosion_square\<close> and \<^verbatim>\<open>erosion_cross\<close>.\<close>

definition erosion_input :: "env \<Rightarrow> app \<Rightarrow> exn + image" where
  "erosion_input e s =
     (if len_shape (the (original_image s)) = 3
      then (case cvtColor e (original_image s) COLOR_RGB2GRAY of
              Inl x \<Rightarrow> Inl x
            | Inr gray \<Rightarrow> Inr (threshold gray 127 255))
      else Inr (the (original_image s)))"

definition erosion_square :: "env \<Rightarrow> app \<Rightarrow> app \<times> report" where
  "erosion_square e s =
     (if \<not> check_image s then (s, Warning)
      else case erosion_input e s of
             Inl x \<Rightarrow> (s, Uncaught x)
           | Inr binary \<Rightarrow>
               let kern = getStructuringElement MORPH_RECT (5, 5)
               in show_processed e (s\<lparr>processed_image := Some (erode binary kern)\<rparr>))"

definition erosion_cross :: "env \<Rightarrow> app \<Rightarrow> app \<times> report" where
  "erosion_cross e s =
     (if \<not> check_image s then (s, Warning)
      else case erosion_input e s of
             Inl x \<Rightarrow> (s, Uncaught x)
           | Inr binary \<Rightarrow>
               let kern = getStructuringElement MORPH_CROSS (5, 5)
               in show_processed e (s\<lparr>processed_image := Some (erode binary kern)\<rparr>))"

definition reset_image :: "env \<Rightarrow> app \<Rightarrow> app \<times> report" where
  "reset_image e s =
     (if \<not> check_image s then (s, Warning)
      else
        let s1 = s\<lparr>processed_image := original_image s\<rparr>
        in case display_image e (processed_image s1) processed_canvas of
             Inl x \<Rightarrow> (s1, Uncaught x)
           | Inr d \<Rightarrow> (s1\<lparr>division_var := Some (Finite 2), threshold_var := 128\<rparr>, Done))"

definition save_image :: "env \<Rightarrow> string \<Rightarrow> app \<Rightarrow> app \<times> report" where
  "save_image e file_path s =
     (if processed_image s = None then (s, Warning)
      else if file_path = [] then (s, Cancelled)
      else case (if len_shape (the (processed_image s)) = 3
                 then cvtColor e (processed_image s) COLOR_RGB2BGR
                 else Inr (the (processed_image s))) of
             Inl x \<Rightarrow> (s, Error)
           | Inr img_save \<Rightarrow>
               (case imwrite e file_path img_save of
                  Inl x \<Rightarrow> (s, Error)
                | Inr written \<Rightarrow> (s, Done)))"

text \<open>
  The buttons of \<^verbatim>\<open>create_control_panel\<close> and \<^verbatim>\<open>add_division_section\<close> that run a
  transform, and the other things a user can do: load, save, reset, and type into the
  division entry.
\<close>

datatype operation =
  Grayscale | Binary | LogicalNot | Divide | Histogram | Blur | Sharpen
  | ErosionSquare | ErosionCross

fun transform :: "env \<Rightarrow> operation \<Rightarrow> app \<Rightarrow> app \<times> report" where
  "transform e Grayscale s = convert_grayscale e s"
| "transform e Binary s = convert_binary e s"
| "transform e LogicalNot s = logical_not e s"
| "transform e Divide s = apply_division e s"
| "transform e Histogram s = show_histogram e s"
| "transform e Blur s = gaussian_blur e s"
| "transform e Sharpen s = sharpen_image e s"
| "transform e ErosionSquare s = erosion_square e s"
| "transform e ErosionCross s = erosion_cross e s"

datatype event =
  Load string | Save string | Reset | Press operation | Type "pyfloat option"

fun handle :: "env \<Rightarrow> event \<Rightarrow> app \<Rightarrow> app \<times> report" where
  "handle e (Load file_path) s = load_image e file_path s"
| "handle e (Save file_path) s = save_image e file_path s"
| "handle e Reset s = reset_image e s"
| "handle e (Press op) s = transform e op s"
| "handle e (Type txt) s = (s\<lparr>division_var := txt\<rparr>, Done)"

text \<open>The Tk main loop handles one event after the other.\<close>

fun mainloop :: "env \<Rightarrow> event list \<Rightarrow> app \<Rightarrow> app" where
  "mainloop e [] s = s"
| "mainloop e (ev # evs) s = mainloop e evs (fst (handle e ev s))"

section \<open>A concrete environment\<close>

text \<open>
  An environment to run the operations in: one readable file, a picture of one row with a
  mid-grey and a dark pixel (stored blue first); the luminance weights of OpenCV's 8-bit
  conversion; convolutions that return their input; canvases of 1000 by 700.
\<close>

definition demo_env :: env where
  "demo_env =
     \<lparr>imread = (\<lambda>path. if path = ''photo.png'' then Some [[(128, 128, 128), (30, 20, 10)]]
                        else None),
      imwrite = (\<lambda>path img. Inr True),
      rgb2gray = (\<lambda>(r, g, b).
         word_of_nat ((4899 * unat r + 9617 * unat g + 1868 * unat b + 8192) div 16384)),
      GaussianBlur = (\<lambda>img ksize sigma. img),
      filter2D = (\<lambda>img ddepth kern. img),
      winfo_width = (\<lambda>cv. 1000),
      winfo_height = (\<lambda>cv. 700)\<rparr>"

definition demo_loaded :: app where
  "demo_loaded =
     \<lparr>original_image = Some (Color [[(128, 128, 128), (10, 20, 30)]]),
      processed_image = Some (Color [[(128, 128, 128), (10, 20, 30)]]),
      image_path = Some ''photo.png'',
      threshold_var = 128, division_var = Some (Finite 2)\<rparr>"

text \<open>The state after the user typed 3 into the division entry and applied it.\<close>

definition demo_divided :: app where
  "demo_divided =
     mainloop demo_env [Load ''photo.png'', Type (Some (Finite 3)), Press Divide]
       setup_variables"

text \<open>The state after Logical NOT was pressed on the loaded picture.\<close>

definition demo_inverted :: app where
  "demo_inverted = mainloop demo_env [Load ''photo.png'', Press LogicalNot] setup_variables"

text \<open>
  An environment whose one readable file is a white picture of 4 by 4 pixels with a
  black pixel in the top left corner, and the state after loading it.
\<close>

definition demo_corner_env :: env where
  "demo_corner_env =
     demo_env\<lparr>imread := (\<lambda>path. if path = ''corner.png''
        then Some [[(0, 0, 0), (255, 255, 255), (255, 255, 255), (255, 255, 255)],
                   [(255, 255, 255), (255, 255, 255), (255, 255, 255), (255, 255, 255)],
                   [(255, 255, 255), (255, 255, 255), (255, 255, 255), (255, 255, 255)],
                   [(255, 255, 255), (255, 255, 255), (255, 255, 255), (255, 255, 255)]]
        else None)\<rparr>"

definition demo_corner :: app where
  "demo_corner = mainloop demo_corner_env [Load ''corner.png''] setup_variables"

section \<open>Rounding to binary64\<close>

text \<open>
  The rounding is monotone, exact on integers below \<open>2\<^sup>5\<^sup>3\<close>, and keeps a positive
  value positive; so a rounded quotient lies between the floor and the ceiling of the
  exact one.
\<close>

lemma pow2_powi: "pow2 e = 2 powi e"
  by (simp add: pow2_def power_int_def inverse_eq_divide power_one_over)

lemma pow2_pos: "0 < pow2 e"
  by (simp add: pow2_powi)

lemma pow2_add: "pow2 (a + b) = pow2 a * pow2 b"
  by (simp add: pow2_powi power_int_add)

lemma pow2_diff: "pow2 (a - b) = pow2 a / pow2 b"
  by (simp add: pow2_powi power_int_diff)

lemma pow2_mono: "a \<le> b \<Longrightarrow> pow2 a \<le> pow2 b"
  by (simp add: pow2_powi power_int_increasing)

lemma bitlen_pow2_bounds:
  assumes "0 < a"
  shows "pow2 (bitlen a - 1) \<le> of_int a" and "of_int a < pow2 (bitlen a)"
proof -
  have b: "2 ^ nat (bitlen a - 1) \<le> a \<and> a < 2 ^ nat (bitlen a)"
    using bitlen_bounds [OF assms] .
  have p: "1 \<le> bitlen a"
    using assms by (simp add: bitlen_alt_def)
  have "(of_int (2 ^ nat (bitlen a - 1)) :: rat) \<le> of_int a"
    using b by (simp only: of_int_le_iff)
  then show "pow2 (bitlen a - 1) \<le> of_int a"
    using p by (simp add: pow2_def)
  have "(of_int a :: rat) < of_int (2 ^ nat (bitlen a))"
    using b by (simp only: of_int_less_iff)
  then show "of_int a < pow2 (bitlen a)"
    using p by (simp add: pow2_def)
qed

lemma binade_bounds:
  assumes "0 < q"
  shows "pow2 (binade q) \<le> q" and "q < pow2 (binade q + 1)"
proof -
  obtain a b where ab: "quotient_of q = (a, b)"
    by (cases "quotient_of q")
  have b: "0 < b"
    using ab by (rule quotient_of_denom_pos)
  have q: "q = of_int a / of_int b"
    using ab by (rule quotient_of_div)
  have a: "0 < a"
    using assms b unfolding q by (simp add: zero_less_divide_iff)
  let ?d = "bitlen a - bitlen b"
  have "q < pow2 (bitlen a) / pow2 (bitlen b - 1)"
    unfolding q using bitlen_pow2_bounds [OF a] bitlen_pow2_bounds [OF b] a b pow2_pos
    by (intro frac_less) (auto simp: less_imp_le)
  then have up: "q < pow2 (?d + 1)"
    by (simp add: pow2_diff [symmetric] algebra_simps)
  have "pow2 (bitlen a - 1) / pow2 (bitlen b) < q"
    unfolding q using bitlen_pow2_bounds [OF a] bitlen_pow2_bounds [OF b] a b pow2_pos
    by (intro frac_less2) (auto simp: less_imp_le)
  then have lo: "pow2 (?d - 1) < q"
    by (simp add: pow2_diff [symmetric] algebra_simps)
  have e: "binade q = (if pow2 ?d \<le> q then ?d else ?d - 1)"
    by (simp add: binade_def ab)
  show "pow2 (binade q) \<le> q"
    using lo by (simp add: e less_imp_le)
  show "q < pow2 (binade q + 1)"
    using up by (simp add: e not_le)
qed


lemma binade_mono:
  assumes "0 < q" and "q \<le> r"
  shows "binade q \<le> binade r"
proof (rule ccontr)
  assume "\<not> binade q \<le> binade r"
  then have "binade r + 1 \<le> binade q"
    by simp
  then have "pow2 (binade r + 1) \<le> pow2 (binade q)"
    by (rule pow2_mono)
  also have "\<dots> \<le> q"
    using assms(1) by (rule binade_bounds)
  also have "\<dots> \<le> r"
    by (rule assms(2))
  also have "\<dots> < pow2 (binade r + 1)"
    using assms by (intro binade_bounds) simp
  finally show False by simp
qed

lemma round_half_even_of_int: "round_half_even (of_int n) = n"
  by (simp add: round_half_even_def)

lemma round_half_even_cases:
  "round_half_even t = \<lfloor>t\<rfloor> \<and> t - of_int \<lfloor>t\<rfloor> \<le> 1 / 2
   \<or> round_half_even t = \<lfloor>t\<rfloor> + 1 \<and> 1 / 2 \<le> t - of_int \<lfloor>t\<rfloor>"
  by (auto simp: round_half_even_def Let_def)

lemma round_half_even_mono:
  assumes "t \<le> t'"
  shows "round_half_even t \<le> round_half_even t'"
proof (cases "\<lfloor>t\<rfloor> = \<lfloor>t'\<rfloor>")
  case True
  then show ?thesis
    using assms by (auto simp: round_half_even_def Let_def)
next
  case False
  then have "\<lfloor>t\<rfloor> + 1 \<le> \<lfloor>t'\<rfloor>"
    using floor_mono [OF assms] by simp
  moreover have "round_half_even t \<le> \<lfloor>t\<rfloor> + 1"
    using round_half_even_cases [of t] by auto
  moreover have "\<lfloor>t'\<rfloor> \<le> round_half_even t'"
    using round_half_even_cases [of t'] by auto
  ultimately show ?thesis by simp
qed

lemma round_binary64_pos:
  assumes "0 < q"
  shows "round_binary64 q
           = of_int (round_half_even (q / pow2 (binade q - 52))) * pow2 (binade q - 52)"
  using assms by (simp add: round_binary64_def Let_def)

lemma pow2_52: "pow2 52 = of_int (2 ^ 52)" and pow2_53: "pow2 53 = of_int (2 ^ 53)"
  by (simp_all add: pow2_def)

lemma ulp_ratio: "pow2 e / pow2 (e - 52) = pow2 52" "pow2 (e + 1) / pow2 (e - 52) = pow2 53"
  by (simp_all add: pow2_diff [symmetric])

lemma ulp_product: "pow2 52 * pow2 (e - 52) = pow2 e" "pow2 53 * pow2 (e - 52) = pow2 (e + 1)"
  by (simp_all add: pow2_add [symmetric] add.commute)

lemma round_binary64_lower:
  assumes "0 < q"
  shows "pow2 (binade q) \<le> round_binary64 q"
proof -
  let ?u = "pow2 (binade q - 52)"
  have u: "0 < ?u" by (rule pow2_pos)
  have "pow2 (binade q) / ?u \<le> q / ?u"
    using binade_bounds(1) [OF assms] u by (simp add: divide_right_mono less_imp_le)
  then have "of_int (2 ^ 52) \<le> q / ?u"
    by (simp only: ulp_ratio pow2_52)
  then have "round_half_even (of_int (2 ^ 52)) \<le> round_half_even (q / ?u)"
    by (rule round_half_even_mono)
  then have "(of_int (2 ^ 52) :: rat) \<le> of_int (round_half_even (q / ?u))"
    by (simp only: round_half_even_of_int of_int_le_iff)
  then have "pow2 52 * ?u \<le> of_int (round_half_even (q / ?u)) * ?u"
    using u by (simp only: mult_le_cancel_right_pos pow2_52)
  then show ?thesis
    by (simp only: round_binary64_pos [OF assms] ulp_product)
qed

lemma round_binary64_upper:
  assumes "0 < q"
  shows "round_binary64 q \<le> pow2 (binade q + 1)"
proof -
  let ?u = "pow2 (binade q - 52)"
  have u: "0 < ?u" by (rule pow2_pos)
  have "q / ?u \<le> pow2 (binade q + 1) / ?u"
    using binade_bounds(2) [OF assms] u by (simp add: divide_right_mono less_imp_le)
  then have "q / ?u \<le> of_int (2 ^ 53)"
    by (simp only: ulp_ratio pow2_53)
  then have "round_half_even (q / ?u) \<le> round_half_even (of_int (2 ^ 53))"
    by (rule round_half_even_mono)
  then have "of_int (round_half_even (q / ?u)) \<le> (of_int (2 ^ 53) :: rat)"
    by (simp only: round_half_even_of_int of_int_le_iff)
  then have "of_int (round_half_even (q / ?u)) * ?u \<le> pow2 53 * ?u"
    using u by (simp only: mult_le_cancel_right_pos pow2_53)
  then show ?thesis
    by (simp only: round_binary64_pos [OF assms] ulp_product)
qed

lemma round_binary64_mono:
  assumes "0 < q" and "q \<le> r"
  shows "round_binary64 q \<le> round_binary64 r"
proof (cases "binade q = binade r")
  case True
  let ?u = "pow2 (binade q - 52)"
  have u: "0 < ?u" by (rule pow2_pos)
  have r: "0 < r" using assms by simp
  have "q / ?u \<le> r / ?u"
    using assms(2) u by (simp add: divide_right_mono less_imp_le)
  then have "round_half_even (q / ?u) \<le> round_half_even (r / ?u)"
    by (rule round_half_even_mono)
  then have "(of_int (round_half_even (q / ?u)) :: rat) * ?u \<le> of_int (round_half_even (r / ?u)) * ?u"
    using u by (simp only: mult_le_cancel_right_pos of_int_le_iff)
  then show ?thesis
    by (simp only: round_binary64_pos [OF assms(1)] round_binary64_pos [OF r] True [symmetric])
next
  case False
  have r: "0 < r" using assms by simp
  have "binade q + 1 \<le> binade r"
    using False binade_mono [OF assms] by simp
  then have "pow2 (binade q + 1) \<le> pow2 (binade r)"
    by (rule pow2_mono)
  then show ?thesis
    using round_binary64_upper [OF assms(1)] round_binary64_lower [OF r] by simp
qed

lemma pow2_neg_nat: "pow2 (- int k) = 1 / 2 ^ k"
  by (simp add: pow2_def)

lemma round_binary64_nat:
  assumes "n < 2 ^ 53"
  shows "round_binary64 (of_nat n) = of_nat n"
proof (cases "n = 0")
  case True
  then show ?thesis by (simp add: round_binary64_def)
next
  case False
  let ?q = "of_nat n :: rat"
  define k where "k = nat (52 - binade ?q)"
  have q: "0 < ?q" using False by simp
  have "?q < of_nat (2 ^ 53)"
    using assms by (simp only: of_nat_less_iff)
  then have "?q < pow2 53"
    by (simp add: pow2_53)
  moreover have "pow2 (binade ?q) \<le> ?q"
    using q by (rule binade_bounds)
  ultimately have "pow2 (binade ?q) < pow2 53"
    by simp
  then have "binade ?q < 53"
    using pow2_mono [of 53 "binade ?q"] by (cases "53 \<le> binade ?q") simp_all
  then have "binade ?q - 52 = - int k"
    by (simp add: k_def)
  then have u: "pow2 (binade ?q - 52) = 1 / 2 ^ k"
    by (simp only: pow2_neg_nat)
  have "?q / pow2 (binade ?q - 52) = of_int (int n * 2 ^ k)"
    by (simp add: u)
  then have "round_half_even (?q / pow2 (binade ?q - 52)) = int n * 2 ^ k"
    by (simp only: round_half_even_of_int)
  then show ?thesis
    by (simp add: round_binary64_pos [OF q] u)
qed

lemma round_binary64_positive:
  assumes "0 < q"
  shows "0 < round_binary64 q"
  using round_binary64_lower [OF assms] pow2_pos [of "binade q"] by simp

lemma round_binary64_int:
  assumes "0 \<le> n" and "n < 2 ^ 53"
  shows "round_binary64 (of_int n) = of_int n"
proof -
  have "nat n < 2 ^ 53"
    using assms by (simp add: nat_less_iff)
  then have "round_binary64 (of_nat (nat n)) = of_nat (nat n)"
    by (rule round_binary64_nat)
  then show ?thesis
    using assms(1) by simp
qed

lemma round_binary64_between:
  assumes "0 \<le> t" and "t \<le> 2 ^ 53 - 1"
  shows "of_int \<lfloor>t\<rfloor> \<le> round_binary64 t" and "round_binary64 t \<le> of_int \<lceil>t\<rceil>"
proof -
  have c: "\<lceil>t\<rceil> < 2 ^ 53"
  proof -
    have "\<lceil>t\<rceil> \<le> 2 ^ 53 - 1"
      using assms(2) by (simp add: ceiling_le_iff)
    then show ?thesis by simp
  qed
  have f: "\<lfloor>t\<rfloor> < 2 ^ 53"
    using c floor_le_ceiling [of t] by simp
  show "of_int \<lfloor>t\<rfloor> \<le> round_binary64 t"
  proof (cases "0 < \<lfloor>t\<rfloor>")
    case True
    then have "0 < (of_int \<lfloor>t\<rfloor> :: rat)"
      by simp
    then have "round_binary64 (of_int \<lfloor>t\<rfloor>) \<le> round_binary64 t"
      by (rule round_binary64_mono) simp
    then show ?thesis
      using True f by (simp add: round_binary64_int)
  next
    case False
    then have z: "\<lfloor>t\<rfloor> = 0"
      using assms(1) by (simp add: not_less order_antisym)
    show ?thesis
    proof (cases "t = 0")
      case True
      then show ?thesis by (simp add: round_binary64_def)
    next
      case False
      then have "0 < t" using assms(1) by simp
      then show ?thesis
        using round_binary64_positive [of t] z by simp
    qed
  qed
  show "round_binary64 t \<le> of_int \<lceil>t\<rceil>"
  proof (cases "t = 0")
    case True
    then show ?thesis by (simp add: round_binary64_def)
  next
    case False
    then have p: "0 < t" using assms(1) by simp
    then have "0 < \<lceil>t\<rceil>"
      by simp
    have "round_binary64 t \<le> round_binary64 (of_int \<lceil>t\<rceil>)"
      using p by (rule round_binary64_mono) simp
    then show ?thesis
      using \<open>0 < \<lceil>t\<rceil>\<close> c by (simp add: round_binary64_int)
  qed
qed

lemma divided_level:
  fixes n :: nat
  assumes "n \<le> 255" and "1 \<le> v"
  shows "min (max (round_binary64 (of_nat n / v)) 0) 255 = round_binary64 (of_nat n / v)"
    and "\<lfloor>of_nat n / v\<rfloor> \<le> \<lfloor>round_binary64 (of_nat n / v)\<rfloor>"
    and "\<lfloor>round_binary64 (of_nat n / v)\<rfloor> \<le> \<lceil>of_nat n / v\<rceil>"
    and "\<lceil>of_nat n / v\<rceil> \<le> int n"
proof -
  let ?t = "of_nat n / v :: rat"
  have "(of_nat n :: rat) \<le> of_nat 255"
    using assms(1) by (simp only: of_nat_le_iff)
  then have x: "(of_nat n :: rat) \<le> 255"
    by simp
  have v: "0 < v"
    using assms(2) by simp
  have t0: "0 \<le> ?t"
    using v by simp
  have "of_nat n * 1 \<le> of_nat n * v"
    using assms(2) by (intro mult_left_mono) simp_all
  then have tx: "?t \<le> of_nat n"
    using v by (simp add: divide_le_eq)
  have t53: "?t \<le> 2 ^ 53 - 1"
    using tx x by simp
  note b = round_binary64_between [OF t0 t53]
  show c: "\<lceil>?t\<rceil> \<le> int n"
    using tx by (simp add: ceiling_le_iff)
  then have "(of_int \<lceil>?t\<rceil> :: rat) \<le> of_int (int n)"
    by (simp only: of_int_le_iff)
  then have "round_binary64 ?t \<le> 255"
    using b(2) x by linarith
  moreover have "(0 :: rat) \<le> of_int \<lfloor>?t\<rfloor>"
    using t0 by simp
  then have "0 \<le> round_binary64 ?t"
    using b(1) by linarith
  ultimately show "min (max (round_binary64 ?t) 0) 255 = round_binary64 ?t"
    by simp
  show "\<lfloor>?t\<rfloor> \<le> \<lfloor>round_binary64 ?t\<rfloor>"
    using b(1) by (simp add: le_floor_iff)
  show "\<lfloor>round_binary64 ?t\<rfloor> \<le> \<lceil>?t\<rceil>"
    using b(2) by (simp add: floor_le_iff)
qed

section \<open>Displaying and loading\<close>

lemmas op_defs = convert_grayscale_def convert_binary_def logical_not_def apply_division_def
  show_histogram_def gaussian_blur_def sharpen_image_def erosion_square_def erosion_cross_def

lemma display_image_None: "display_image e None cv = Inr None"
  by (simp add: display_image_def)

lemma display_image_drawn:
  assumes "0 < width arr" and "0 < height arr"
  shows "\<exists>d. display_image e (Some arr) cv = Inr (Some d)"
  using assms by (simp add: display_image_def int_truediv_def Let_def)

lemma display_image_raises:
  assumes "width arr = 0 \<or> height arr = 0"
  shows "display_image e (Some arr) cv = Inl ZeroDivisionError"
  using assms by (auto simp: display_image_def int_truediv_def Let_def)

lemma fst_show_processed: "fst (show_processed e s) = s"
  by (simp add: show_processed_def split: sum.splits)

lemma show_processed_Done:
  assumes "processed_image s = Some arr" and "0 < width arr" and "0 < height arr"
  shows "show_processed e s = (s, Done)"
  using display_image_drawn [OF assms(2,3), of e processed_canvas] assms(1)
  by (auto simp: show_processed_def)

lemma load_image_cancelled: "load_image e [] s = (s, Cancelled)"
  by (simp add: load_image_def)

lemma load_image_unreadable:
  assumes "file_path \<noteq> []" and "imread e file_path = None"
  shows "load_image e file_path s = (s\<lparr>original_image := None\<rparr>, Error)"
  using assms by (simp add: load_image_def)

lemma width_swap: "row_width (map (map f) rows) = row_width rows"
  by (cases rows) (simp_all add: row_width_def)

lemma load_image_readable:
  assumes "file_path \<noteq> []" and "imread e file_path = Some bgr"
    and "0 < row_width bgr" and "0 < length bgr"
  shows "load_image e file_path s =
           (s\<lparr>original_image := Some (Color (map (map (\<lambda>(b, g, r). (r, g, b))) bgr)),
              processed_image := Some (Color (map (map (\<lambda>(b, g, r). (r, g, b))) bgr)),
              image_path := Some file_path\<rparr>, Done)"
proof -
  let ?rgb = "Color (map (map (\<lambda>(b, g, r). (r, g, b))) bgr)"
  have w: "0 < width ?rgb" and h: "0 < height ?rgb"
    using assms(3,4) by (simp_all add: width_swap)
  obtain d where d: "display_image e (Some ?rgb) original_canvas = Inr (Some d)"
    using display_image_drawn [OF w h] by blast
  obtain d' where d': "display_image e (Some ?rgb) processed_canvas = Inr (Some d')"
    using display_image_drawn [OF w h] by blast
  show ?thesis
    using assms(1,2) d d' by (simp add: load_image_def)
qed

lemma load_image_Done:
  assumes "load_image e file_path s = (s', Done)"
  shows "\<exists>bgr. imread e file_path = Some bgr
           \<and> s' = s\<lparr>original_image := Some (Color (map (map (\<lambda>(b, g, r). (r, g, b))) bgr)),
                     processed_image := Some (Color (map (map (\<lambda>(b, g, r). (r, g, b))) bgr)),
                     image_path := Some file_path\<rparr>"
  using assms
  by (cases "imread e file_path")
     (auto simp: load_image_def Let_def split: if_splits sum.splits)

lemma demo_load: "load_image demo_env ''photo.png'' s =
   (s\<lparr>original_image := Some (Color [[(128, 128, 128), (10, 20, 30)]]),
      processed_image := Some (Color [[(128, 128, 128), (10, 20, 30)]]),
      image_path := Some ''photo.png''\<rparr>, Done)"
  using load_image_readable [of "''photo.png''" demo_env "[[(128, 128, 128), (30, 20, 10)]]" s]
  by (simp add: demo_env_def row_width_def)

lemma demo_loaded_reached: "mainloop demo_env [Load ''photo.png''] setup_variables = demo_loaded"
  by (simp add: demo_load setup_variables_def demo_loaded_def)

text \<open>
  Claim C1. An operation that reports an error leaves the original buffer, the processed
  buffer and the parameters as they were; in particular a load that fails to decode.

  \<^verbatim>\<open>load_image\<close> assigns the result of \<^verbatim>\<open>cv2.imread\<close> to \<^verbatim>\<open>self.original_image\<close> before
  anything has looked at it. For an unreadable file that result is \<^verbatim>\<open>None\<close>; the
  conversion in the next line raises, the handler shows the error box, and the original
  of the picture loaded before is gone while its processed buffer and its path stay.
  The transforms and \<^verbatim>\<open>save_image\<close> do keep the state when they report a failure
  (\<open>reported_failure_keeps_state\<close> and \<open>fst_save_image\<close> below).
\<close>

theorem failed_load_drops_original:
  "mainloop demo_env [Load ''photo.png''] setup_variables = demo_loaded
   \<and> load_image demo_env ''missing.png'' demo_loaded
       = (demo_loaded\<lparr>original_image := None\<rparr>, Error)
   \<and> demo_loaded\<lparr>original_image := None\<rparr> \<noteq> demo_loaded"
proof -
  have "imread demo_env ''missing.png'' = None"
    by (simp add: demo_env_def)
  then have "load_image demo_env ''missing.png'' demo_loaded
       = (demo_loaded\<lparr>original_image := None\<rparr>, Error)"
    by (simp add: load_image_unreadable)
  moreover have "demo_loaded\<lparr>original_image := None\<rparr> \<noteq> demo_loaded"
    by (simp add: demo_loaded_def)
  ultimately show ?thesis
    using demo_loaded_reached by simp
qed

section \<open>Transforms\<close>

lemma transform_frame:
  "fst (transform e op s) = s\<lparr>processed_image := processed_image (fst (transform e op s))\<rparr>"
  by (cases op)
     (auto simp: op_defs fst_show_processed Let_def erosion_input_def
           split: sum.splits option.splits pyfloat.splits)

lemma transform_original: "original_image (fst (transform e op s)) = original_image s"
  by (subst transform_frame) simp

lemma transform_threshold: "threshold_var (fst (transform e op s)) = threshold_var s"
  by (subst transform_frame) simp

lemma transform_division: "division_var (fst (transform e op s)) = division_var s"
  by (subst transform_frame) simp

lemma reported_failure_keeps_state:
  assumes "snd (transform e op s) = Warning \<or> snd (transform e op s) = Error"
  shows "fst (transform e op s) = s"
  using assms
  by (cases op)
     (auto simp: op_defs show_processed_def Let_def erosion_input_def
           split: sum.splits option.splits pyfloat.splits if_splits)

text \<open>
  Claim C5. A transform invoked while no image is loaded reports the precondition
  failure (the warning box of \<^verbatim>\<open>check_image\<close>) and changes neither buffer nor parameter.
\<close>

theorem transform_without_image:
  assumes "original_image s = None"
  shows "transform e op s = (s, Warning)"
  using assms by (cases op) (simp_all add: op_defs check_image_def)

theorem transform_without_image_witness:
  "original_image setup_variables = None
   \<and> transform demo_env ErosionCross setup_variables = (setup_variables, Warning)"
proof -
  have h: "original_image setup_variables = None"
    by (simp add: setup_variables_def)
  show ?thesis
    using h transform_without_image [OF h, of demo_env ErosionCross] by simp
qed

section \<open>Logical NOT\<close>

lemma NOT_sample: "NOT = (\<lambda>x :: sample. 255 - x)"
  by (rule ext) (simp add: not_eq_complement)

lemma map_image_comp: "map_image f (map_image g img) = map_image (\<lambda>x. f (g x)) img"
  by (cases img) (auto simp: comp_def split: prod.splits)

lemma map_image_id: "map_image (\<lambda>x. x) img = img"
  by (cases img) (auto simp: map_idI)

text \<open>
  Claim C7. Logical NOT maps every sample \<open>x\<close> to \<open>255 - x\<close>, and applied to its own
  result it gives back the samples it started from.
\<close>

theorem logical_not_involution:
  assumes "original_image s = Some img"
  shows "processed_image (fst (logical_not e s)) = Some (map_image (\<lambda>x. 255 - x) img)
       \<and> processed_image (fst (logical_not e
             (s\<lparr>original_image := processed_image (fst (logical_not e s))\<rparr>))) = Some img"
  using assms
  by (simp add: logical_not_def check_image_def fst_show_processed bitwise_not_def
        map_image_comp map_image_id)
     (simp add: NOT_sample)

theorem logical_not_involution_witness:
  "original_image demo_loaded = Some (Color [[(128, 128, 128), (10, 20, 30)]])
   \<and> processed_image (fst (logical_not demo_env demo_loaded))
       = Some (Color [[(127, 127, 127), (245, 235, 225)]])
   \<and> processed_image (fst (logical_not demo_env
         (demo_loaded\<lparr>original_image := processed_image (fst (logical_not demo_env demo_loaded))\<rparr>)))
       = Some (Color [[(128, 128, 128), (10, 20, 30)]])"
proof -
  have h: "original_image demo_loaded = Some (Color [[(128, 128, 128), (10, 20, 30)]])"
    by (simp add: demo_loaded_def)
  note t = logical_not_involution [OF h, of demo_env]
  have a: "processed_image (fst (logical_not demo_env demo_loaded))
       = Some (Color [[(127, 127, 127), (245, 235, 225)]])"
    using conjunct1 [OF t] by simp
  show ?thesis
    using h a conjunct2 [OF t] by blast
qed

section \<open>Loading and the parameters\<close>

lemma apply_division_keeps_factor: "division_var (fst (apply_division e s)) = division_var s"
  using transform_division [of e Divide s] by simp

lemma demo_divided_factor: "division_var demo_divided = Some (Finite 3)"
  by (simp add: demo_divided_def demo_load apply_division_keeps_factor)

text \<open>
  Claim C4 says that a successful load resets the parameters to 128 and 2.0.
  \<^verbatim>\<open>load_image\<close> never writes \<^verbatim>\<open>threshold_var\<close> or \<^verbatim>\<open>division_var\<close> (only
  \<^verbatim>\<open>reset_image\<close> does): after a division by 3, loading a picture leaves the factor at 3.
\<close>

theorem reload_keeps_division_factor:
  "snd (load_image demo_env ''photo.png'' demo_divided) = Done
   \<and> division_var (fst (load_image demo_env ''photo.png'' demo_divided)) = Some (Finite 3)
   \<and> division_var (fst (load_image demo_env ''photo.png'' demo_divided)) \<noteq> Some (Finite 2)"
  by (simp add: demo_load demo_divided_factor)

text \<open>
  Claim C4, as the code has it. After a successful load the original buffer is the
  decoded picture with its channels reordered to RGB, the processed buffer is a copy of
  it, and both parameters are what they were before the load, whatever the state was.
\<close>

theorem load_image_result:
  assumes "load_image e file_path s = (s', Done)"
  shows "\<exists>bgr. imread e file_path = Some bgr
           \<and> original_image s' = Some (Color (map (map (\<lambda>(b, g, r). (r, g, b))) bgr))
           \<and> processed_image s' = original_image s'
           \<and> threshold_var s' = threshold_var s
           \<and> division_var s' = division_var s"
proof -
  obtain bgr where "imread e file_path = Some bgr"
    and "s' = s\<lparr>original_image := Some (Color (map (map (\<lambda>(b, g, r). (r, g, b))) bgr)),
                 processed_image := Some (Color (map (map (\<lambda>(b, g, r). (r, g, b))) bgr)),
                 image_path := Some file_path\<rparr>"
    using load_image_Done [OF assms] by blast
  then show ?thesis by simp
qed

theorem load_image_result_witness:
  "load_image demo_env ''photo.png'' demo_divided
     = (demo_divided\<lparr>original_image := Some (Color [[(128, 128, 128), (10, 20, 30)]]),
                      processed_image := Some (Color [[(128, 128, 128), (10, 20, 30)]]),
                      image_path := Some ''photo.png''\<rparr>, Done)
   \<and> (\<exists>bgr. imread demo_env ''photo.png'' = Some bgr
           \<and> original_image (demo_divided\<lparr>original_image := Some (Color [[(128, 128, 128), (10, 20, 30)]]),
                      processed_image := Some (Color [[(128, 128, 128), (10, 20, 30)]]),
                      image_path := Some ''photo.png''\<rparr>)
               = Some (Color (map (map (\<lambda>(b, g, r). (r, g, b))) bgr))
           \<and> threshold_var (demo_divided\<lparr>original_image := Some (Color [[(128, 128, 128), (10, 20, 30)]]),
                      processed_image := Some (Color [[(128, 128, 128), (10, 20, 30)]]),
                      image_path := Some ''photo.png''\<rparr>) = threshold_var demo_divided
           \<and> division_var (demo_divided\<lparr>original_image := Some (Color [[(128, 128, 128), (10, 20, 30)]]),
                      processed_image := Some (Color [[(128, 128, 128), (10, 20, 30)]]),
                      image_path := Some ''photo.png''\<rparr>) = Some (Finite 3))"
proof -
  have h: "load_image demo_env ''photo.png'' demo_divided
     = (demo_divided\<lparr>original_image := Some (Color [[(128, 128, 128), (10, 20, 30)]]),
                      processed_image := Some (Color [[(128, 128, 128), (10, 20, 30)]]),
                      image_path := Some ''photo.png''\<rparr>, Done)"
    by (rule demo_load)
  show ?thesis
    using h load_image_result [OF h] demo_divided_factor by auto
qed

section \<open>The original buffer has three channels\<close>

lemma fst_save_image: "fst (save_image e file_path s) = s"
  by (simp add: save_image_def split: sum.splits)

lemma reset_image_original: "original_image (fst (reset_image e s)) = original_image s"
  by (simp add: reset_image_def Let_def split: sum.splits)

lemma load_image_original:
  "original_image (fst (load_image e file_path s)) = original_image s
   \<or> original_image (fst (load_image e file_path s)) = None
   \<or> (\<exists>rows. original_image (fst (load_image e file_path s)) = Some (Color rows))"
  by (cases "imread e file_path")
     (auto simp: load_image_def Let_def split: sum.splits)

lemma handle_keeps_rgb:
  assumes "\<forall>img. original_image s = Some img \<longrightarrow> len_shape img = 3"
  shows "\<forall>img. original_image (fst (handle e ev s)) = Some img \<longrightarrow> len_shape img = 3"
proof (cases ev)
  case (Load file_path)
  then show ?thesis
    using assms load_image_original [of e file_path s] by auto
next
  case (Save file_path)
  then show ?thesis using assms by (simp add: fst_save_image)
next
  case Reset
  then show ?thesis using assms by (simp add: reset_image_original)
next
  case (Press op)
  then show ?thesis using assms by (simp add: transform_original)
next
  case (Type entered)
  then show ?thesis using assms by simp
qed

lemma mainloop_keeps_rgb:
  assumes "\<forall>img. original_image s = Some img \<longrightarrow> len_shape img = 3"
  shows "\<forall>img. original_image (mainloop e evs s) = Some img \<longrightarrow> len_shape img = 3"
  using assms
proof (induction evs arbitrary: s)
  case Nil
  then show ?case by simp
next
  case (Cons ev evs)
  show ?case
    using Cons.IH [OF handle_keeps_rgb [OF Cons.prems]] by simp
qed

lemma len_shape_3: "len_shape img = 3 \<longleftrightarrow> (\<exists>rows. img = Color rows)"
  by (cases img) simp_all

text \<open>
  Claim C10. In every state the application can reach, a loaded original is a
  3-channel array: \<^verbatim>\<open>cv2.imread\<close> decodes in colour mode and \<^verbatim>\<open>load_image\<close> only reorders
  the channels. So the test \<^verbatim>\<open>len(self.original_image.shape) == 3\<close> always succeeds and
  the 1-channel branches of the binary threshold and of the erosions are never taken.
\<close>

theorem original_is_rgb:
  assumes "s = mainloop e evs setup_variables" and "check_image s"
  shows "(\<exists>rows. original_image s = Some (Color rows))
       \<and> len_shape (the (original_image s)) = 3
       \<and> erosion_input e s = (case cvtColor e (original_image s) COLOR_RGB2GRAY of
                                 Inl x \<Rightarrow> Inl x
                               | Inr gray \<Rightarrow> Inr (threshold gray 127 255))"
proof -
  have "\<forall>img. original_image setup_variables = Some img \<longrightarrow> len_shape img = 3"
    by (simp add: setup_variables_def)
  then have "\<forall>img. original_image s = Some img \<longrightarrow> len_shape img = 3"
    unfolding assms(1) by (rule mainloop_keeps_rgb)
  moreover obtain img where "original_image s = Some img"
    using assms(2) by (auto simp: check_image_def)
  ultimately show ?thesis
    by (auto simp: len_shape_3 erosion_input_def)
qed

theorem original_is_rgb_witness:
  "demo_loaded = mainloop demo_env [Load ''photo.png''] setup_variables
   \<and> check_image demo_loaded
   \<and> (\<exists>rows. original_image demo_loaded = Some (Color rows))
   \<and> len_shape (the (original_image demo_loaded)) = 3"
proof -
  have h1: "demo_loaded = mainloop demo_env [Load ''photo.png''] setup_variables"
    by (rule demo_loaded_reached [symmetric])
  have h2: "check_image demo_loaded"
    by (simp add: check_image_def demo_loaded_def)
  show ?thesis
    using h1 h2 original_is_rgb [OF h1 h2] by blast
qed

section \<open>What a transform reads\<close>

lemma transform_report_ignores_processed:
  assumes "op \<noteq> Histogram"
  shows "snd (transform e op (s\<lparr>processed_image := p\<rparr>)) = snd (transform e op s)"
  using assms
  by (cases op)
     (auto simp: op_defs show_processed_def Let_def erosion_input_def check_image_def
           split: sum.splits option.splits pyfloat.splits)

lemma transform_ignores_processed:
  assumes "op \<noteq> Histogram" and "snd (transform e op s) = Done"
  shows "processed_image (fst (transform e op (s\<lparr>processed_image := p\<rparr>)))
           = processed_image (fst (transform e op s))"
  using assms
  by (cases op)
     (auto simp: op_defs fst_show_processed Let_def erosion_input_def check_image_def
           split: sum.splits option.splits pyfloat.splits if_splits)

lemma presses_frame:
  "mainloop e (map Press ops) s
     = s\<lparr>processed_image := processed_image (mainloop e (map Press ops) s)\<rparr>"
proof (induction ops arbitrary: s)
  case Nil
  show ?case by simp
next
  case (Cons op ops)
  let ?s' = "fst (transform e op s)"
  have "mainloop e (map Press ops) ?s'
          = ?s'\<lparr>processed_image := processed_image (mainloop e (map Press ops) ?s')\<rparr>"
    by (rule Cons.IH)
  also have "\<dots> = s\<lparr>processed_image := processed_image (mainloop e (map Press ops) ?s')\<rparr>"
    by (subst transform_frame) simp
  finally show ?case by simp
qed

lemma mainloop_append: "mainloop e (evs @ evs') s = mainloop e evs' (mainloop e evs s)"
  by (induction evs arbitrary: s) simp_all

lemma show_histogram_plot:
  assumes "original_image s = Some img"
  shows "show_histogram e s =
     (s, Plotted (case (case processed_image s of None \<Rightarrow> img | Some q \<Rightarrow> q) of
                    Color rows \<Rightarrow> map (calcHist (Color rows)) [0, 1, 2]
                  | Gray rows \<Rightarrow> [calcHist (Gray rows) 0]))"
  using assms
  by (auto simp: show_histogram_def check_image_def Let_def split: option.splits image.splits)

text \<open>
  Claim C2, as the code has it. With an original present, every operation other than
  the histogram that completes computes the processed buffer from the original and the
  parameters, whatever the processed buffer was before; so a sequence of transforms that
  ends in such an operation leaves the processed buffer that the last one alone leaves.
  The histogram is plotted from the processed buffer when there is one, from the original
  only otherwise, and leaves the state as it is.
\<close>

theorem transforms_read_original:
  assumes "original_image s = Some img"
  shows "(op \<noteq> Histogram \<and> snd (transform e op s) = Done \<longrightarrow>
            processed_image (fst (transform e op (s\<lparr>processed_image := p\<rparr>)))
              = processed_image (fst (transform e op s))
            \<and> processed_image (mainloop e (map Press ops @ [Press op]) s)
              = processed_image (fst (transform e op s)))
       \<and> transform e Histogram s =
            (s, Plotted (case (case processed_image s of None \<Rightarrow> img | Some q \<Rightarrow> q) of
                           Color rows \<Rightarrow> map (calcHist (Color rows)) [0, 1, 2]
                         | Gray rows \<Rightarrow> [calcHist (Gray rows) 0]))"
proof (intro conjI impI)
  assume a: "op \<noteq> Histogram \<and> snd (transform e op s) = Done"
  show "processed_image (fst (transform e op (s\<lparr>processed_image := p\<rparr>)))
          = processed_image (fst (transform e op s))"
    using a by (simp add: transform_ignores_processed)
  have "mainloop e (map Press ops @ [Press op]) s
          = fst (transform e op (mainloop e (map Press ops) s))"
    by (simp add: mainloop_append)
  also have "\<dots> = fst (transform e op
                 (s\<lparr>processed_image := processed_image (mainloop e (map Press ops) s)\<rparr>))"
    by (subst presses_frame) simp
  finally show "processed_image (mainloop e (map Press ops @ [Press op]) s)
          = processed_image (fst (transform e op s))"
    using a by (simp add: transform_ignores_processed)
next
  show "transform e Histogram s =
            (s, Plotted (case (case processed_image s of None \<Rightarrow> img | Some q \<Rightarrow> q) of
                           Color rows \<Rightarrow> map (calcHist (Color rows)) [0, 1, 2]
                         | Gray rows \<Rightarrow> [calcHist (Gray rows) 0]))"
    using show_histogram_plot [OF assms] by simp
qed

lemma demo_logical_not:
  "logical_not demo_env demo_loaded
     = (demo_loaded\<lparr>processed_image := Some (Color [[(127, 127, 127), (245, 235, 225)]])\<rparr>,
        Done)"
proof -
  have "show_processed demo_env
          (demo_loaded\<lparr>processed_image := Some (Color [[(127, 127, 127), (245, 235, 225)]])\<rparr>)
        = (demo_loaded\<lparr>processed_image := Some (Color [[(127, 127, 127), (245, 235, 225)]])\<rparr>,
           Done)"
    by (rule show_processed_Done [where arr = "Color [[(127, 127, 127), (245, 235, 225)]]"])
       (simp_all add: row_width_def)
  then show ?thesis
    by (simp add: logical_not_def check_image_def demo_loaded_def bitwise_not_def NOT_sample)
qed

lemma demo_inverted_eq:
  "demo_inverted
     = demo_loaded\<lparr>processed_image := Some (Color [[(127, 127, 127), (245, 235, 225)]])\<rparr>"
  using demo_loaded_reached by (simp add: demo_inverted_def demo_logical_not)

lemma calcHist_nth:
  assumes "v < 256"
  shows "calcHist img i ! v = count_list (channel img i) (of_nat v)"
  using assms by (simp add: calcHist_def)

lemma demo_histograms_differ:
  "map (calcHist (Color [[(127, 127, 127), (245, 235, 225)]])) [0, 1, 2]
     \<noteq> map (calcHist (Color [[(128, 128, 128), (10, 20, 30)]])) [0, 1, 2]"
proof
  assume "map (calcHist (Color [[(127, 127, 127), (245, 235, 225)]])) [0, 1, 2]
     = map (calcHist (Color [[(128, 128, 128), (10, 20, 30)]])) [0, 1, 2]"
  then have "calcHist (Color [[(127, 127, 127), (245, 235, 225)]]) 0 ! 128
     = calcHist (Color [[(128, 128, 128), (10, 20, 30)]]) 0 ! 128"
    by simp
  then show False
    by (simp add: calcHist_nth)
qed

text \<open>
  Claim C2 says that every operation of the catalogue, the histogram included, computes
  from the original buffer, and that a sequence of transforms yields the processed buffer
  of its last one. \<^verbatim>\<open>show_histogram\<close> takes the processed buffer when there is one
  (\<^verbatim>\<open># Use processed image for histogram if available\<close>): after Logical NOT it plots
  the histogram of the inverted picture, and the processed buffer stays inverted, while
  the histogram alone leaves the copy of the original.
\<close>

theorem histogram_reads_processed:
  "original_image demo_inverted = Some (Color [[(128, 128, 128), (10, 20, 30)]])
   \<and> transform demo_env Histogram demo_inverted
       = (demo_inverted,
          Plotted (map (calcHist (Color [[(127, 127, 127), (245, 235, 225)]])) [0, 1, 2]))
   \<and> map (calcHist (Color [[(127, 127, 127), (245, 235, 225)]])) [0, 1, 2]
       \<noteq> map (calcHist (Color [[(128, 128, 128), (10, 20, 30)]])) [0, 1, 2]
   \<and> processed_image (mainloop demo_env [Press LogicalNot, Press Histogram] demo_loaded)
       \<noteq> processed_image (fst (transform demo_env Histogram demo_loaded))"
proof -
  have o: "original_image demo_inverted = Some (Color [[(128, 128, 128), (10, 20, 30)]])"
    by (simp add: demo_inverted_eq) (simp add: demo_loaded_def)
  have h: "transform demo_env Histogram demo_inverted
       = (demo_inverted,
          Plotted (map (calcHist (Color [[(127, 127, 127), (245, 235, 225)]])) [0, 1, 2]))"
    using show_histogram_plot [OF o, of demo_env] by (simp add: demo_inverted_eq)
  have o': "original_image demo_loaded = Some (Color [[(128, 128, 128), (10, 20, 30)]])"
    by (simp add: demo_loaded_def)
  have "fst (transform demo_env Histogram demo_loaded) = demo_loaded"
    using show_histogram_plot [OF o', of demo_env] by simp
  moreover have "mainloop demo_env [Press LogicalNot, Press Histogram] demo_loaded
       = demo_inverted"
    using h by (simp add: demo_logical_not demo_inverted_eq)
  ultimately have "processed_image (mainloop demo_env [Press LogicalNot, Press Histogram] demo_loaded)
       \<noteq> processed_image (fst (transform demo_env Histogram demo_loaded))"
    by (simp add: demo_inverted_eq) (simp add: demo_loaded_def)
  then show ?thesis
    using o h demo_histograms_differ by blast
qed


theorem transforms_read_original_witness:
  "original_image demo_loaded = Some (Color [[(128, 128, 128), (10, 20, 30)]])
   \<and> LogicalNot \<noteq> Histogram
   \<and> snd (transform demo_env LogicalNot demo_loaded) = Done
   \<and> processed_image (fst (transform demo_env LogicalNot (demo_loaded\<lparr>processed_image := None\<rparr>)))
       = Some (Color [[(127, 127, 127), (245, 235, 225)]])
   \<and> processed_image (mainloop demo_env (map Press [Binary, Blur] @ [Press LogicalNot]) demo_loaded)
       = Some (Color [[(127, 127, 127), (245, 235, 225)]])"
proof -
  have h: "original_image demo_loaded = Some (Color [[(128, 128, 128), (10, 20, 30)]])"
    by (simp add: demo_loaded_def)
  have a: "LogicalNot \<noteq> Histogram"
    by simp
  have d: "snd (transform demo_env LogicalNot demo_loaded) = Done"
    by (simp add: demo_logical_not)
  have r: "processed_image (fst (transform demo_env LogicalNot demo_loaded))
       = Some (Color [[(127, 127, 127), (245, 235, 225)]])"
    by (simp add: demo_logical_not)
  note t = transforms_read_original [OF h, where op = LogicalNot and e = demo_env
      and p = None and ops = "[Binary, Blur]"]
  from t a d have
    "processed_image (fst (transform demo_env LogicalNot (demo_loaded\<lparr>processed_image := None\<rparr>)))
       = processed_image (fst (transform demo_env LogicalNot demo_loaded))
     \<and> processed_image (mainloop demo_env (map Press [Binary, Blur] @ [Press LogicalNot]) demo_loaded)
       = processed_image (fst (transform demo_env LogicalNot demo_loaded))"
    by blast
  with h a d r show ?thesis
    by presburger
qed

section \<open>Binary threshold\<close>

lemma samples_threshold:
  "\<forall>x \<in> set (samples (threshold img t 255)). x = 0 \<or> x = 255"
  by (cases img) (auto simp: threshold_def)

lemma convert_binary_processed:
  assumes "original_image s = Some img"
  shows "processed_image (fst (convert_binary e s)) =
           Some (threshold (case img of Color rows \<Rightarrow> Gray (map (map (rgb2gray e)) rows)
                                      | Gray rows \<Rightarrow> Gray rows) (threshold_var s) 255)"
  using assms
  by (cases img) (simp_all add: convert_binary_def check_image_def fst_show_processed)

text \<open>
  Claim C3, as the code has it. The binary threshold converts a 3-channel original to
  grayscale and maps each sample to 255 if it is greater than \<^verbatim>\<open>threshold_var\<close> and to 0
  otherwise, so every output sample is 0 or 255.
\<close>

theorem convert_binary_result:
  assumes "original_image s = Some img"
  shows "processed_image (fst (convert_binary e s)) =
           Some (Gray (map (map (\<lambda>x. if threshold_var s < uint x then 255 else 0))
                        (case img of Color rows \<Rightarrow> map (map (rgb2gray e)) rows
                                   | Gray rows \<Rightarrow> rows)))
       \<and> (\<forall>x \<in> set (samples (the (processed_image (fst (convert_binary e s))))).
             x = 0 \<or> x = 255)"
proof
  show "processed_image (fst (convert_binary e s)) =
           Some (Gray (map (map (\<lambda>x. if threshold_var s < uint x then 255 else 0))
                        (case img of Color rows \<Rightarrow> map (map (rgb2gray e)) rows
                                   | Gray rows \<Rightarrow> rows)))"
    by (cases img) (simp_all add: convert_binary_processed [OF assms] threshold_def)
  show "\<forall>x \<in> set (samples (the (processed_image (fst (convert_binary e s))))).
             x = 0 \<or> x = 255"
    by (simp only: convert_binary_processed [OF assms] option.sel) (rule samples_threshold)
qed

lemma demo_rgb2gray: "rgb2gray demo_env (128, 128, 128) = 128" "rgb2gray demo_env (10, 20, 30) = 18"
  by (simp_all add: demo_env_def)

text \<open>
  Claim C3 says that a sample equal to the threshold becomes 255. \<^verbatim>\<open>cv2.THRESH_BINARY\<close>
  compares with \<open>>\<close>: the mid-grey pixel has luminance 128, the threshold is 128, and
  the output sample is 0.
\<close>

theorem threshold_is_strict:
  "original_image demo_loaded = Some (Color [[(128, 128, 128), (10, 20, 30)]])
   \<and> rgb2gray demo_env (128, 128, 128) = 128
   \<and> threshold_var demo_loaded = 128
   \<and> processed_image (fst (convert_binary demo_env demo_loaded)) = Some (Gray [[0, 0]])"
proof -
  have h: "original_image demo_loaded = Some (Color [[(128, 128, 128), (10, 20, 30)]])"
    by (simp add: demo_loaded_def)
  have t: "threshold_var demo_loaded = 128"
    by (simp add: demo_loaded_def)
  have "processed_image (fst (convert_binary demo_env demo_loaded)) = Some (Gray [[0, 0]])"
    by (simp add: convert_binary_processed [OF h] t threshold_def demo_rgb2gray)
  with h t demo_rgb2gray(1) show ?thesis by blast
qed

theorem convert_binary_result_witness:
  "original_image (demo_loaded\<lparr>threshold_var := 17\<rparr>)
     = Some (Color [[(128, 128, 128), (10, 20, 30)]])
   \<and> processed_image (fst (convert_binary demo_env (demo_loaded\<lparr>threshold_var := 17\<rparr>)))
       = Some (Gray [[255, 255]])
   \<and> set (samples (the (processed_image
         (fst (convert_binary demo_env (demo_loaded\<lparr>threshold_var := 17\<rparr>)))))) = {255}"
proof -
  have h: "original_image (demo_loaded\<lparr>threshold_var := 17\<rparr>)
      = Some (Color [[(128, 128, 128), (10, 20, 30)]])"
    by (simp add: demo_loaded_def)
  note t = convert_binary_result [OF h, of demo_env]
  have "processed_image (fst (convert_binary demo_env (demo_loaded\<lparr>threshold_var := 17\<rparr>)))
       = Some (Gray [[255, 255]])"
    using conjunct1 [OF t] by (simp add: demo_rgb2gray)
  with h show ?thesis by simp
qed

section \<open>Erosion\<close>

lemma fold_min_in: "fold min xs (b :: 'a :: linorder) \<in> insert b (set xs)"
  by (induction xs arbitrary: b) (auto simp: min_def)

lemma neighbourhood_subset: "set (neighbourhood src kern y x) \<subseteq> set (concat src)"
  by (auto simp: neighbourhood_def Let_def split: if_splits) (meson nth_mem)

lemma erode_rows_samples:
  "set (concat (erode_rows min (b :: 'a :: linorder) src kern)) \<subseteq> insert b (set (concat src))"
proof
  fix v
  assume "v \<in> set (concat (erode_rows min b src kern))"
  then obtain y x where "v = fold min (neighbourhood src kern y x) b"
    by (auto simp: erode_rows_def)
  then have "v \<in> insert b (set (neighbourhood src kern y x))"
    by (simp add: fold_min_in del: insert_iff)
  then show "v \<in> insert b (set (concat src))"
    using neighbourhood_subset [of src kern y x] by blast
qed

lemma erosion_square_color:
  assumes "original_image s = Some (Color rows)"
  shows "processed_image (fst (erosion_square e s)) =
           Some (erode (threshold (Gray (map (map (rgb2gray e)) rows)) 127 255)
                   (getStructuringElement MORPH_RECT (5, 5)))"
  using assms
  by (simp add: erosion_square_def erosion_input_def check_image_def fst_show_processed)

text \<open>
  Claim C8. For every loaded image the square erosion converts the original to
  grayscale, binarises it at the fixed threshold 127 and erodes it once with the 5 by 5
  square; the result has one channel and holds only the values 0 and 255. A loaded
  original always has three channels, so the conversion is always needed.
\<close>

theorem erosion_square_result:
  assumes "s = mainloop e evs setup_variables" and "check_image s"
  shows "\<exists>rows. original_image s = Some (Color rows)
           \<and> processed_image (fst (erosion_square e s)) =
               Some (Gray (erode_rows min 255
                       (map (map (\<lambda>p. if 127 < uint (rgb2gray e p) then 255 else 0)) rows)
                       (replicate 5 (replicate 5 1))))
           \<and> len_shape (the (processed_image (fst (erosion_square e s)))) = 2
           \<and> (\<forall>x \<in> set (samples (the (processed_image (fst (erosion_square e s))))).
                 x = 0 \<or> x = 255)"
proof -
  have "\<forall>img. original_image setup_variables = Some img \<longrightarrow> len_shape img = 3"
    by (simp add: setup_variables_def)
  then have "\<forall>img. original_image s = Some img \<longrightarrow> len_shape img = 3"
    unfolding assms(1) by (rule mainloop_keeps_rgb)
  moreover obtain img where "original_image s = Some img"
    using assms(2) by (auto simp: check_image_def)
  ultimately obtain rows where o: "original_image s = Some (Color rows)"
    by (auto simp: len_shape_3)
  let ?bin = "map (map (\<lambda>p. if 127 < uint (rgb2gray e p) then 255 else (0 :: sample))) rows"
  have p: "processed_image (fst (erosion_square e s)) =
              Some (Gray (erode_rows min 255 ?bin (replicate 5 (replicate 5 1))))"
    using o by (simp add: erosion_square_color threshold_def comp_def)
  have "set (concat ?bin) \<subseteq> {0, 255}"
    by auto
  then have "set (concat (erode_rows min 255 ?bin (replicate 5 (replicate 5 1)))) \<subseteq> {0, 255}"
    using erode_rows_samples [of 255 ?bin "replicate 5 (replicate 5 1)"] by blast
  then have "\<forall>x \<in> set (samples (the (processed_image (fst (erosion_square e s))))).
                  x = 0 \<or> x = 255"
    unfolding p by auto
  moreover have "len_shape (the (processed_image (fst (erosion_square e s)))) = 2"
    unfolding p by simp
  ultimately show ?thesis
    using o p by blast
qed

lemma demo_corner_loaded:
  "demo_corner =
     setup_variables
       \<lparr>original_image := Some (Color
          [[(0, 0, 0), (255, 255, 255), (255, 255, 255), (255, 255, 255)],
           [(255, 255, 255), (255, 255, 255), (255, 255, 255), (255, 255, 255)],
           [(255, 255, 255), (255, 255, 255), (255, 255, 255), (255, 255, 255)],
           [(255, 255, 255), (255, 255, 255), (255, 255, 255), (255, 255, 255)]]),
        processed_image := Some (Color
          [[(0, 0, 0), (255, 255, 255), (255, 255, 255), (255, 255, 255)],
           [(255, 255, 255), (255, 255, 255), (255, 255, 255), (255, 255, 255)],
           [(255, 255, 255), (255, 255, 255), (255, 255, 255), (255, 255, 255)],
           [(255, 255, 255), (255, 255, 255), (255, 255, 255), (255, 255, 255)]]),
        image_path := Some ''corner.png''\<rparr>"
  using load_image_readable [of "''corner.png''" demo_corner_env
      "[[(0, 0, 0), (255, 255, 255), (255, 255, 255), (255, 255, 255)],
        [(255, 255, 255), (255, 255, 255), (255, 255, 255), (255, 255, 255)],
        [(255, 255, 255), (255, 255, 255), (255, 255, 255), (255, 255, 255)],
        [(255, 255, 255), (255, 255, 255), (255, 255, 255), (255, 255, 255)]]" setup_variables]
  by (simp add: demo_corner_def demo_corner_env_def row_width_def)

lemma demo_corner_gray:
  "rgb2gray demo_corner_env (0, 0, 0) = 0" "rgb2gray demo_corner_env (255, 255, 255) = 255"
  by (simp_all add: demo_corner_env_def demo_env_def)

lemma erode_corner:
  "erode_rows min 255
     [[0, 255, 255, 255], [255, 255, 255, 255], [255, 255, 255, 255], [255, 255, 255, 255 :: sample]]
     (replicate 5 (replicate 5 1))
   = [[0, 0, 0, 255], [0, 0, 0, 255], [0, 0, 0, 255], [255, 255, 255, 255]]"
  by code_simp

theorem erosion_square_result_witness:
  "demo_corner = mainloop demo_corner_env [Load ''corner.png''] setup_variables
   \<and> check_image demo_corner
   \<and> processed_image (fst (erosion_square demo_corner_env demo_corner))
       = Some (Gray [[0, 0, 0, 255], [0, 0, 0, 255], [0, 0, 0, 255], [255, 255, 255, 255]])"
proof -
  have h1: "demo_corner = mainloop demo_corner_env [Load ''corner.png''] setup_variables"
    by (rule demo_corner_def)
  have h2: "check_image demo_corner"
    by (simp add: demo_corner_loaded check_image_def)
  obtain rows where o: "original_image demo_corner = Some (Color rows)"
    and p: "processed_image (fst (erosion_square demo_corner_env demo_corner)) =
               Some (Gray (erode_rows min 255
                       (map (map (\<lambda>p. if 127 < uint (rgb2gray demo_corner_env p) then 255 else 0)) rows)
                       (replicate 5 (replicate 5 1))))"
    using erosion_square_result [OF h1 h2] by blast
  have "rows = [[(0, 0, 0), (255, 255, 255), (255, 255, 255), (255, 255, 255)],
           [(255, 255, 255), (255, 255, 255), (255, 255, 255), (255, 255, 255)],
           [(255, 255, 255), (255, 255, 255), (255, 255, 255), (255, 255, 255)],
           [(255, 255, 255), (255, 255, 255), (255, 255, 255), (255, 255, 255)]]"
    using o by (simp add: demo_corner_loaded)
  then have "processed_image (fst (erosion_square demo_corner_env demo_corner))
       = Some (Gray [[0, 0, 0, 255], [0, 0, 0, 255], [0, 0, 0, 255], [255, 255, 255, 255]])"
    using p by (simp add: demo_corner_gray erode_corner)
  with h1 h2 show ?thesis by blast
qed

section \<open>Division\<close>

lemma trunc_clip: "trunc (clip a 0 255) = \<lfloor>min (max a 0) 255\<rfloor>"
  by (simp add: trunc_def clip_def)

lemma apply_division_rejects:
  assumes "original_image s = Some img"
    and "division_var s = None \<or> (\<exists>val. division_var s = Some val \<and> \<not> float_between 1 val 10)"
  shows "apply_division e s = (s, Error)"
  using assms by (auto simp: apply_division_def check_image_def)

lemma apply_division_applies:
  assumes "original_image s = Some img"
    and "division_var s = Some (Finite v)" and "1 \<le> v" and "v \<le> 10"
  shows "fst (apply_division e s) =
           s\<lparr>processed_image :=
               Some (map_image (\<lambda>x. astype_uint8 (clip (true_divide x v) 0 255)) img)\<rparr>"
proof -
  have "s\<lparr>division_var := Some (Finite v)\<rparr> = s"
    using assms(2) by (cases s) simp
  then show ?thesis
    using assms by (simp add: apply_division_def check_image_def fst_show_processed Let_def)
qed

text \<open>
  Claim C6. With an image loaded, a division factor outside [1.0, 10.0] (or an entry that
  is no number) is reported as an error and nothing is applied: the buffers and the
  stored factor stay as they are. A factor inside the range is applied: every output
  sample is the input sample divided by the factor (a float division), clamped to
  [0, 255] and truncated to an integer. That integer lies between the floor and the
  ceiling of the exact quotient and never exceeds the input sample.
\<close>

theorem apply_division_validated:
  assumes "original_image s = Some img"
  shows "(division_var s = None
            \<or> (\<exists>val. division_var s = Some val \<and> \<not> float_between 1 val 10)
          \<longrightarrow> apply_division e s = (s, Error))
       \<and> (\<forall>v. division_var s = Some (Finite v) \<and> 1 \<le> v \<and> v \<le> 10 \<longrightarrow>
            fst (apply_division e s) =
              s\<lparr>processed_image :=
                  Some (map_image
                    (\<lambda>x. word_of_int \<lfloor>min (max (round_binary64 (of_nat (unat x) / v)) 0) 255\<rfloor>)
                    img)\<rparr>
            \<and> (\<forall>n \<le> 255.
                  \<lfloor>of_nat n / v\<rfloor> \<le> \<lfloor>min (max (round_binary64 (of_nat n / v)) 0) 255\<rfloor>
                  \<and> \<lfloor>min (max (round_binary64 (of_nat n / v)) 0) 255\<rfloor> \<le> \<lceil>of_nat n / v\<rceil>
                  \<and> \<lceil>of_nat n / v\<rceil> \<le> int n))"
proof (intro conjI allI impI)
  assume "division_var s = None
            \<or> (\<exists>val. division_var s = Some val \<and> \<not> float_between 1 val 10)"
  then show "apply_division e s = (s, Error)"
    by (rule apply_division_rejects [OF assms])
next
  fix v
  assume "division_var s = Some (Finite v) \<and> 1 \<le> v \<and> v \<le> 10"
  then show "fst (apply_division e s) =
              s\<lparr>processed_image :=
                  Some (map_image
                    (\<lambda>x. word_of_int \<lfloor>min (max (round_binary64 (of_nat (unat x) / v)) 0) 255\<rfloor>)
                    img)\<rparr>"
    using apply_division_applies [OF assms, of v e]
    by (simp add: astype_uint8_def trunc_clip true_divide_def)
next
  fix v and n :: nat
  assume v: "division_var s = Some (Finite v) \<and> 1 \<le> v \<and> v \<le> 10" and n: "n \<le> 255"
  then have v1: "1 \<le> v"
    by simp
  show "\<lfloor>of_nat n / v\<rfloor> \<le> \<lfloor>min (max (round_binary64 (of_nat n / v)) 0) 255\<rfloor>"
    by (simp only: divided_level [OF n v1])
  show "\<lfloor>min (max (round_binary64 (of_nat n / v)) 0) 255\<rfloor> \<le> \<lceil>of_nat n / v\<rceil>"
    by (simp only: divided_level [OF n v1])
  show "\<lceil>of_nat n / v\<rceil> \<le> int n"
    by (rule divided_level [OF n v1])
qed

lemma halves:
  "round_binary64 64 = 64" "round_binary64 5 = 5"
  "round_binary64 10 = 10" "round_binary64 15 = 15"
  by code_simp+

theorem apply_division_validated_witness:
  "original_image demo_loaded = Some (Color [[(128, 128, 128), (10, 20, 30)]])
   \<and> division_var (demo_loaded\<lparr>division_var := Some (Finite 11)\<rparr>) = Some (Finite 11)
   \<and> \<not> float_between 1 (Finite 11) 10
   \<and> apply_division demo_env (demo_loaded\<lparr>division_var := Some (Finite 11)\<rparr>)
       = (demo_loaded\<lparr>division_var := Some (Finite 11)\<rparr>, Error)
   \<and> division_var demo_loaded = Some (Finite 2)
   \<and> fst (apply_division demo_env demo_loaded)
       = demo_loaded\<lparr>processed_image := Some (Color [[(64, 64, 64), (5, 10, 15)]])\<rparr>"
proof -
  have h: "original_image demo_loaded = Some (Color [[(128, 128, 128), (10, 20, 30)]])"
    by (simp add: demo_loaded_def)
  have h': "original_image (demo_loaded\<lparr>division_var := Some (Finite 11)\<rparr>)
      = Some (Color [[(128, 128, 128), (10, 20, 30)]])"
    using h by simp
  have d: "division_var demo_loaded = Some (Finite 2)"
    by (simp add: demo_loaded_def)
  have "apply_division demo_env (demo_loaded\<lparr>division_var := Some (Finite 11)\<rparr>)
       = (demo_loaded\<lparr>division_var := Some (Finite 11)\<rparr>, Error)"
    using apply_division_validated [OF h', of demo_env] by simp
  moreover have "fst (apply_division demo_env demo_loaded)
       = demo_loaded\<lparr>processed_image := Some (Color [[(64, 64, 64), (5, 10, 15)]])\<rparr>"
    using apply_division_validated [OF h, of demo_env] d by (simp add: halves)
  ultimately show ?thesis
    using h d by simp
qed

section \<open>Rendering\<close>

lemma row_width_replicate: "row_width (replicate n r) = (if n = 0 then 0 else length r)"
  by (cases n) (simp_all add: row_width_def)

text \<open>
  Claim C9, as the code has it. For an image of width \<open>w\<close> and height \<open>h\<close> on a canvas
  of \<open>vw\<close> by \<open>vh\<close>, \<^verbatim>\<open>display_image\<close> scales both dimensions by the one factor
  \<open>min((max(vw, 300) - 20) / w, (max(vh, 200) - 20) / h, 1.0)\<close>, which is positive and
  at most 1, and draws \<open>max(int(w * scale), 1)\<close> by \<open>max(int(h * scale), 1)\<close> pixels,
  never more than the image has.
\<close>

lemma drawn_at_most:
  assumes "0 < n" and "n < 2 ^ 53" and "0 < sc" and "sc \<le> 1"
  shows "max (trunc (int_float_mul (int n) sc)) 1 \<le> int n"
proof -
  have n: "round_binary64 (of_nat n) = of_nat n"
    using assms(2) by (rule round_binary64_nat)
  have p: "0 < of_nat n * sc"
    using assms(1,3) by simp
  have "of_nat n * sc \<le> of_nat n * 1"
    using assms(4) by (intro mult_left_mono) simp_all
  then have "round_binary64 (of_nat n * sc) \<le> round_binary64 (of_nat n)"
    using p by (intro round_binary64_mono) simp_all
  then have u: "round_binary64 (of_nat n * sc) \<le> of_nat n"
    by (simp only: n)
  have "0 < round_binary64 (of_nat n * sc)"
    using p by (rule round_binary64_positive)
  then have "trunc (round_binary64 (of_nat n * sc)) = \<lfloor>round_binary64 (of_nat n * sc)\<rfloor>"
    by (simp add: trunc_def)
  also have "\<dots> \<le> \<lfloor>of_nat n :: rat\<rfloor>"
    using u by (rule floor_mono)
  finally have "trunc (round_binary64 (of_nat n * sc)) \<le> int n"
    by simp
  moreover have "int_float_mul (int n) sc = round_binary64 (of_nat n * sc)"
    using n by (simp add: int_float_mul_def)
  ultimately show ?thesis
    using assms(1) by simp
qed

theorem display_image_scale:
  assumes "0 < width arr" and "0 < height arr"
    and "sc = min (round_binary64 (of_int (max (winfo_width e cv) 300 - 20) / of_nat (width arr)))
              (min (round_binary64 (of_int (max (winfo_height e cv) 200 - 20) / of_nat (height arr))) 1)"
  shows "display_image e (Some arr) cv =
           Inr (Some (sc,
                      max (trunc (int_float_mul (int (width arr)) sc)) 1,
                      max (trunc (int_float_mul (int (height arr)) sc)) 1))
       \<and> 0 < sc \<and> sc \<le> 1
       \<and> (width arr < 2 ^ 53 \<longrightarrow>
            max (trunc (int_float_mul (int (width arr)) sc)) 1 \<le> int (width arr))
       \<and> (height arr < 2 ^ 53 \<longrightarrow>
            max (trunc (int_float_mul (int (height arr)) sc)) 1 \<le> int (height arr))"
proof -
  have d: "display_image e (Some arr) cv =
           Inr (Some (sc,
                      max (trunc (int_float_mul (int (width arr)) sc)) 1,
                      max (trunc (int_float_mul (int (height arr)) sc)) 1))"
    using assms by (simp add: display_image_def int_truediv_def Let_def)
  have "0 < (of_int (max (winfo_width e cv) 300 - 20) :: rat) / of_nat (width arr)"
    using assms(1) by simp
  then have w: "0 < round_binary64 (of_int (max (winfo_width e cv) 300 - 20) / of_nat (width arr))"
    by (rule round_binary64_positive)
  have "0 < (of_int (max (winfo_height e cv) 200 - 20) :: rat) / of_nat (height arr)"
    using assms(2) by simp
  then have h: "0 < round_binary64 (of_int (max (winfo_height e cv) 200 - 20) / of_nat (height arr))"
    by (rule round_binary64_positive)
  have p: "0 < sc" and l: "sc \<le> 1"
    using w h by (simp_all add: assms(3))
  show ?thesis
    using d p l drawn_at_most [OF assms(1) _ p l] drawn_at_most [OF assms(2) _ p l]
    by blast
qed

lemma demo_floats:
  "round_binary64 (49 / 50) = 2206763817411543 / 2251799813685248"
  "round_binary64 (34 / 35) = 8749850704605535 / 9007199254740992"
  "trunc (int_float_mul 1000 (8749850704605535 / 9007199254740992)) = 971"
  "trunc (int_float_mul 700 (8749850704605535 / 9007199254740992)) = 680"
  "round_binary64 1 = 1"
  by code_simp+

text \<open>
  Claim C9 gives the factor as \<open>min(vw / w, vh / h, 1.0)\<close>. \<^verbatim>\<open>display_image\<close> takes 20
  pixels off each canvas dimension first (and takes the canvas to be at least 300 by
  200): a 1000 by 700 image on a 1000 by 700 canvas, factor 1.0 by the claim, is drawn
  at 971 by 680.
\<close>

theorem display_image_keeps_margin:
  "display_image demo_env (Some (Gray (replicate 700 (replicate 1000 0)))) processed_canvas
     = Inr (Some (8749850704605535 / 9007199254740992, 971, 680))
   \<and> min (round_binary64 (1000 / 1000)) (min (round_binary64 (700 / 700)) 1) = 1
   \<and> 8749850704605535 / 9007199254740992 \<noteq> (1 :: rat)"
  by (simp add: display_image_def int_truediv_def Let_def demo_env_def
        row_width_replicate demo_floats)

theorem display_image_scale_witness:
  "0 < width (Gray (replicate 700 (replicate 1000 0)))
   \<and> 0 < height (Gray (replicate 700 (replicate 1000 0)))
   \<and> display_image demo_env (Some (Gray (replicate 700 (replicate 1000 0)))) processed_canvas
     = Inr (Some (8749850704605535 / 9007199254740992, 971, 680))
   \<and> 8749850704605535 / 9007199254740992 \<le> (1 :: rat)"
proof -
  have w: "0 < width (Gray (replicate 700 (replicate 1000 0)))"
    by (simp add: row_width_replicate)
  have h: "0 < height (Gray (replicate 700 (replicate 1000 0)))"
    by simp
  have s: "8749850704605535 / 9007199254740992 =
      min (round_binary64 (of_int (max (winfo_width demo_env processed_canvas) 300 - 20)
                            / of_nat (width (Gray (replicate 700 (replicate 1000 0))))))
          (min (round_binary64 (of_int (max (winfo_height demo_env processed_canvas) 200 - 20)
                            / of_nat (height (Gray (replicate 700 (replicate 1000 0)))))) 1)"
    by (simp add: demo_env_def row_width_replicate demo_floats)
  show ?thesis
    using w h display_image_scale [OF w h s]
    by (simp add: row_width_replicate demo_floats)
qed

end
